theory Spec2Isabelle
  imports Main "HOL-Library.Word"
begin

unbundle bit_operations_syntax

section \<open>Python values\<close>

text \<open>
  The class \<open>MerkleTree\<close> of \<open>src/merkletools/mt.py\<close> checks the types of its arguments at
  run time, so an argument is a value of a small universe of Python objects: byte strings,
  text, integers, booleans, \<open>None\<close>, and dicts from hashable atoms to values. A dict is
  the list of its items in insertion order, the order \<open>dict.items()\<close> walks.
  Text is a \<open>string\<close>: the code points below 256.
\<close>

type_synonym byte = "8 word"
type_synonym bytes = "byte list"

datatype pyatom = ABytes bytes | AStr string | AInt int | ABool bool | ANone

datatype pyval = Atom pyatom | Dict "(pyatom \<times> pyval) list"

datatype error =
    TypeError | NotImplementedError | UnicodeDecodeError
  | IndexOutOfRange | EmptyTree | UnsupportedAlgorithm | MalformedProof

fun isinstance_bytes :: "pyval \<Rightarrow> bool" where
  "isinstance_bytes (Atom (ABytes b)) = True"
| "isinstance_bytes v = False"

fun isinstance_str :: "pyval \<Rightarrow> bool" where
  "isinstance_str (Atom (AStr s)) = True"
| "isinstance_str v = False"

fun isinstance_dict :: "pyval \<Rightarrow> bool" where
  "isinstance_dict (Dict d) = True"
| "isinstance_dict v = False"

fun isinstance_bool :: "pyval \<Rightarrow> bool" where
  "isinstance_bool (Atom (ABool b)) = True"
| "isinstance_bool v = False"

text \<open>\<open>bool\<close> is a subclass of \<open>int\<close>: \<open>isinstance(True, int)\<close> holds, and \<open>True\<close> indexes as 1.\<close>

fun isinstance_int :: "pyval \<Rightarrow> bool" where
  "isinstance_int (Atom (AInt i)) = True"
| "isinstance_int (Atom (ABool b)) = True"
| "isinstance_int v = False"

fun int_of :: "pyval \<Rightarrow> int" where
  "int_of (Atom (AInt i)) = i"
| "int_of (Atom (ABool b)) = (if b then 1 else 0)"
| "int_of v = 0"

text \<open>The truth value of a tuple: a tuple is false only when it is empty, whatever it holds.\<close>

definition tuple_truth :: "bool list \<Rightarrow> bool" where
  "tuple_truth items = (items \<noteq> [])"

subsection \<open>\<open>str()\<close> of an atom\<close>

definition hex_digit :: "nat \<Rightarrow> char" where
  "hex_digit n = ''0123456789abcdef'' ! (n mod 16)"

definition hex_byte :: "byte \<Rightarrow> string" where
  "hex_byte b = [hex_digit (unat b div 16), hex_digit (unat b mod 16)]"

text \<open>
  \<open>repr\<close> of a byte string, which is what \<open>str\<close> gives for one: the quote is \<open>'\<close> unless
  the bytes hold a \<open>'\<close> and no \<open>"\<close>; the quote and the backslash are escaped, tab, newline
  and carriage return are written \<open>\t\<close>, \<open>\n\<close>, \<open>\r\<close>, and a byte outside the printable ASCII
  range is written \<open>\xhh\<close>.
\<close>

definition repr_quote :: "bytes \<Rightarrow> char" where
  "repr_quote bs = (if 0x27 \<in> set bs \<and> 0x22 \<notin> set bs then CHR 0x22 else CHR 0x27)"

definition repr_byte :: "char \<Rightarrow> byte \<Rightarrow> string" where
  "repr_byte quote c =
     (if c = of_char quote \<or> c = 0x5C then [CHR 0x5C, char_of (unat c)]
      else if c = 0x09 then [CHR 0x5C, CHR ''t'']
      else if c = 0x0A then [CHR 0x5C, CHR ''n'']
      else if c = 0x0D then [CHR 0x5C, CHR ''r'']
      else if c < 0x20 \<or> 0x7F \<le> c then [CHR 0x5C, CHR ''x''] @ hex_byte c
      else [char_of (unat c)])"

definition bytes_repr :: "bytes \<Rightarrow> string" where
  "bytes_repr bs =
     (let quote = repr_quote bs
      in [CHR ''b'', quote] @ concat (map (repr_byte quote) bs) @ [quote])"

function nat_digits :: "nat \<Rightarrow> string" where
  "nat_digits n =
     (if n < 10 then [hex_digit n] else nat_digits (n div 10) @ [hex_digit (n mod 10)])"
  by pat_completeness auto
termination
  by (relation "measure (\<lambda>n. n)") auto

definition int_str :: "int \<Rightarrow> string" where
  "int_str i = (if i < 0 then CHR ''-'' # nat_digits (nat (- i)) else nat_digits (nat i))"

fun py_str :: "pyatom \<Rightarrow> string" where
  "py_str (AStr s) = s"
| "py_str (ABytes b) = bytes_repr b"
| "py_str (AInt i) = int_str i"
| "py_str (ABool b) = (if b then ''True'' else ''False'')"
| "py_str ANone = ''None''"

subsection \<open>\<open>str.encode()\<close> and \<open>bytes.decode()\<close>\<close>

text \<open>
  Both use UTF-8. A code point below 128 is one byte, one from 128 to 255 is two. Decoding
  raises \<open>UnicodeDecodeError\<close> on a malformed sequence; a well-formed sequence for a code
  point from 256 on has no value in \<open>string\<close> and is reported the same way, which is the
  limit of this model of text.
\<close>

definition encode_char :: "char \<Rightarrow> bytes" where
  "encode_char c =
     (let n = (of_char c :: nat)
      in if n < 128 then [of_nat n] else [of_nat (192 + n div 64), of_nat (128 + n mod 64)])"

definition encode :: "string \<Rightarrow> bytes" where
  "encode s = concat (map encode_char s)"

fun decode :: "bytes \<Rightarrow> error + string" where
  "decode [] = Inr []"
| "decode (b # bs) =
     (if b < 0x80 then
        (case decode bs of Inl e \<Rightarrow> Inl e | Inr s \<Rightarrow> Inr (char_of (unat b) # s))
      else if b = 0xC2 \<or> b = 0xC3 then
        (case bs of
           [] \<Rightarrow> Inl UnicodeDecodeError
         | c # rest \<Rightarrow>
             if 0x80 \<le> c \<and> c \<le> 0xBF then
               (case decode rest of
                  Inl e \<Rightarrow> Inl e
                | Inr s \<Rightarrow> Inr (char_of ((unat b - 192) * 64 + (unat c - 128)) # s))
             else Inl UnicodeDecodeError)
      else Inl UnicodeDecodeError)"

section \<open>The class \<open>MerkleTree\<close>\<close>

subsection \<open>\<open>_convert_dict_to_string\<close>\<close>

text \<open>
  The check on each item is written as \<open>not (a, b, c, d, e)\<close>: the negation of a tuple of
  five tests. The nested call receives a dict, so its own \<open>isinstance\<close> check passes; its
  result is appended and the key of the nested dict is not used.
\<close>

fun convert_dict_to_string :: "pyval \<Rightarrow> error + string"
  and convert_items :: "(pyatom \<times> pyval) list \<Rightarrow> string \<Rightarrow> error + string" where
  "convert_dict_to_string (Atom a) = Inl TypeError"
| "convert_dict_to_string (Dict dict_value) = convert_items dict_value []"
| "convert_items [] new_value = Inr new_value"
| "convert_items ((key, Dict d) # rest) new_value =
     (if \<not> tuple_truth [isinstance_bytes (Atom key), isinstance_str (Atom key),
                         isinstance_bytes (Dict d), isinstance_str (Dict d),
                         isinstance_dict (Dict d)]
      then Inl TypeError
      else (case convert_dict_to_string (Dict d) of
              Inl e \<Rightarrow> Inl e
            | Inr s \<Rightarrow> convert_items rest (new_value @ s)))"
| "convert_items ((key, Atom a) # rest) new_value =
     (if \<not> tuple_truth [isinstance_bytes (Atom key), isinstance_str (Atom key),
                         isinstance_bytes (Atom a), isinstance_str (Atom a),
                         isinstance_dict (Atom a)]
      then Inl TypeError
      else convert_items rest (new_value @ py_str key @ py_str a))"

subsection \<open>The object and its construction\<close>

text \<open>
  The attributes of a \<open>MerkleTree\<close>: \<open>_secure\<close>, set by \<open>__init__\<close>, \<open>hash_function\<close> and
  \<open>is_ready\<close>, which the methods of \<open>mt.py\<close> read, and the leaves and levels the base class
  \<open>MerkleTools\<close> keeps. \<open>hash_function t data\<close> is the digest of \<open>data\<close> as raw bytes;
  \<open>hexdigest()\<close> is \<open>to_hex\<close> of it.
\<close>

record MerkleTree =
  secure :: bool
  hash_function :: "bytes \<Rightarrow> bytes"
  leaves :: "bytes list"
  levels :: "bytes list list"
  is_ready :: bool

definition to_hex :: "bytes \<Rightarrow> string" where
  "to_hex bs = concat (map hex_byte bs)"

text \<open>
  Modelled from the spec: the constructor of the base class \<open>MerkleTools\<close>, which is not
  among the sources. An unsupported algorithm identifier fails at construction time with
  \<open>UnsupportedAlgorithm\<close>; a new tree has no leaves and is unbuilt. \<open>algorithms\<close> is the
  table of supported hash functions, and \<open>secure_attr\<close> the attribute \<open>_secure\<close> that the
  object already carries when the base constructor runs.
\<close>

definition MerkleTools_init ::
  "(string \<Rightarrow> (bytes \<Rightarrow> bytes) option) \<Rightarrow> string \<Rightarrow> bool \<Rightarrow> error + MerkleTree" where
  "MerkleTools_init algorithms hash_type secure_attr =
     (case algorithms hash_type of
        None \<Rightarrow> Inl UnsupportedAlgorithm
      | Some h \<Rightarrow>
          Inr \<lparr>secure = secure_attr, hash_function = h, leaves = [], levels = [],
               is_ready = False\<rparr>)"

fun MerkleTree_init ::
  "(string \<Rightarrow> (bytes \<Rightarrow> bytes) option) \<Rightarrow> pyval \<Rightarrow> string \<Rightarrow> error + MerkleTree" where
  "MerkleTree_init algorithms (Atom (ABool b)) hash_type = MerkleTools_init algorithms hash_type b"
| "MerkleTree_init algorithms secure_arg hash_type = Inl TypeError"

subsection \<open>\<open>put\<close>, \<open>put_list\<close> and \<open>convert_value\<close>\<close>

text \<open>
  The check of \<open>put\<close> is \<open>not (a, b, c)\<close>, the negation of a tuple of three tests.
  \<open>add_leaf\<close> is the method of the base class; what it does with text, or with a value of
  another type, is given neither by the sources nor by the spec, so \<open>put\<close> is stated for
  every \<open>add_leaf\<close>, which receives the value, \<open>do_hash\<close> and the object.
\<close>

definition put ::
  "(pyval \<Rightarrow> bool \<Rightarrow> MerkleTree \<Rightarrow> error + MerkleTree)
     \<Rightarrow> MerkleTree \<Rightarrow> pyval \<Rightarrow> error + MerkleTree" where
  "put add_leaf t val =
     (if \<not> tuple_truth [isinstance_bytes val, isinstance_str val, isinstance_dict val]
      then Inl TypeError
      else if isinstance_dict val then
        (case convert_dict_to_string val of
           Inl e \<Rightarrow> Inl e
         | Inr s \<Rightarrow> add_leaf (Atom (AStr s)) (secure t) t)
      else add_leaf val (secure t) t)"

fun put_list ::
  "(pyval \<Rightarrow> bool \<Rightarrow> MerkleTree \<Rightarrow> error + MerkleTree)
     \<Rightarrow> MerkleTree \<Rightarrow> pyval list \<Rightarrow> error + MerkleTree" where
  "put_list add_leaf t [] = Inr t"
| "put_list add_leaf t (val # vals) =
     (case put add_leaf t val of Inl e \<Rightarrow> Inl e | Inr t' \<Rightarrow> put_list add_leaf t' vals)"

text \<open>
  A hash constructor of \<open>hashlib\<close> takes bytes only: text and dicts raise \<open>TypeError\<close>.
\<close>

fun hexdigest :: "(bytes \<Rightarrow> bytes) \<Rightarrow> pyval \<Rightarrow> error + string" where
  "hexdigest h (Atom (ABytes b)) = Inr (to_hex (h b))"
| "hexdigest h v = Inl TypeError"

definition convert_value :: "MerkleTree \<Rightarrow> pyval \<Rightarrow> error + pyval" where
  "convert_value t val =
     (if \<not> (isinstance_bytes val \<or> isinstance_str val \<or> isinstance_dict val)
      then Inl TypeError
      else if secure t then
        (case hexdigest (hash_function t) val of
           Inl e \<Rightarrow> Inl e
         | Inr s \<Rightarrow> Inr (Atom (ABytes (encode s))))
      else Inr val)"

subsection \<open>The exclusion proofs\<close>

text \<open>
  \<open>get_proof_of_exclusion\<close> is declared with the parameter \<open>self\<close>, and
  \<open>verify_proof_of_exclusion\<close> with no parameter at all. A function receives the list of
  its positional arguments and raises \<open>TypeError\<close> when their number is not the number of
  its parameters, before its body runs; a call through an object, \<open>t.m(args)\<close>, passes the
  object first.
\<close>

definition get_proof_of_exclusion :: "'a list \<Rightarrow> error + 'r" where
  "get_proof_of_exclusion positional =
     (if length positional \<noteq> 1 then Inl TypeError else Inl NotImplementedError)"

definition verify_proof_of_exclusion :: "'a list \<Rightarrow> error + 'r" where
  "verify_proof_of_exclusion positional =
     (if length positional \<noteq> 0 then Inl TypeError else Inl NotImplementedError)"

definition method_call :: "('a list \<Rightarrow> error + 'r) \<Rightarrow> 'a \<Rightarrow> 'a list \<Rightarrow> error + 'r" where
  "method_call f self args = f (self # args)"

section \<open>The base class \<open>MerkleTools\<close>\<close>

text \<open>
  \<open>mt.py\<close> imports \<open>MerkleTools\<close> and \<open>Proof\<close> from modules that are not among the
  sources. Their parts that the methods of \<open>MerkleTree\<close> call are modelled from the spec.
  The spec speaks of byte strings throughout, while \<open>mt.py\<close> calls \<open>encode()\<close> on what the
  base class returns, so the base class hands out text: here the hexadecimal digits of the
  bytes, the form \<open>convert_value\<close> gives a stored value, and the side of a sibling as the
  word \<open>left\<close> or \<open>right\<close>.
\<close>

subsection \<open>TreeBuilder\<close>

text \<open>
  Modelled from the spec: one step of TreeBuilder, which is not among the sources. Adjacent
  nodes are paired left to right; a pair is combined by the digest of the left node followed
  by the right node; when the count is odd the last node is paired with a duplicate of
  itself.
\<close>

fun next_level :: "(bytes \<Rightarrow> bytes) \<Rightarrow> bytes list \<Rightarrow> bytes list" where
  "next_level h [] = []"
| "next_level h [x] = [h (x @ x)]"
| "next_level h (x # y # rest) = h (x @ y) # next_level h rest"

lemma length_next_level: "length (next_level h nodes) = (length nodes + 1) div 2"
  by (induction h nodes rule: next_level.induct) simp_all

text \<open>
  Modelled from the spec: \<open>build\<close> of TreeBuilder, which is not among the sources. Level 0
  is the leaves as given; each further level is the step above, until exactly one node
  remains, the root. A single leaf is already one node, so its tree has the one level the
  level count \<open>ceil(log2(leafCount)) + 1\<close> of the spec gives it, and the leaf is the root;
  the remark of the spec that a single leaf is hashed once more does not agree with that
  count and is not followed.
\<close>

function build :: "(bytes \<Rightarrow> bytes) \<Rightarrow> bytes list \<Rightarrow> bytes list list" where
  "build h nodes = (if length nodes \<le> 1 then [nodes] else nodes # build h (next_level h nodes))"
  by pat_completeness auto
termination
  by (relation "measure (\<lambda>(h, nodes). length nodes)") (auto simp: length_next_level)

declare build.simps [simp del]

text \<open>
  Modelled from the spec: the operations of the base class on the tree, which are not
  among the sources. Building a tree with no leaves fails with \<open>EmptyTree\<close>; a built tree
  is ready. Resetting clears the leaves and the built state.
\<close>

definition MerkleTools_make_tree :: "MerkleTree \<Rightarrow> error + MerkleTree" where
  "MerkleTools_make_tree t =
     (if leaves t = [] then Inl EmptyTree
      else Inr (t\<lparr>levels := build (hash_function t) (leaves t), is_ready := True\<rparr>))"

definition MerkleTools_reset_tree :: "MerkleTree \<Rightarrow> MerkleTree" where
  "MerkleTools_reset_tree t = t\<lparr>leaves := [], levels := [], is_ready := False\<rparr>"

text \<open>
  Modelled from the spec: what a root or proof query of the base class does before it reads
  the levels, which is not among the sources. A tree with zero leaves rejects root queries
  and proof requests with \<open>EmptyTree\<close>; a mutation of the leaves forces a rebuild before
  the next root or proof query.
\<close>

definition ensure_built :: "MerkleTree \<Rightarrow> error + MerkleTree" where
  "ensure_built t =
     (if leaves t = [] then Inl EmptyTree
      else if is_ready t then Inr t
      else MerkleTools_make_tree t)"

text \<open>
  Modelled from the spec: \<open>get_leaf\<close> of the base class, which is not among the sources.
  An index beyond the leaves fails with \<open>IndexOutOfRange\<close>.
\<close>

definition MerkleTools_get_leaf :: "MerkleTree \<Rightarrow> int \<Rightarrow> error + string" where
  "MerkleTools_get_leaf t index =
     (if 0 \<le> index \<and> index < int (length (leaves t))
      then Inr (to_hex (leaves t ! nat index))
      else Inl IndexOutOfRange)"

text \<open>
  Modelled from the spec: \<open>get_merkle_root\<close> of the base class, which is not among the
  sources. The root is the single node of the last level; a tree with no leaves has no
  root and the query fails with \<open>EmptyTree\<close>.
\<close>

fun root_of :: "bytes list list \<Rightarrow> error + bytes" where
  "root_of [] = Inl EmptyTree"
| "root_of [[]] = Inl EmptyTree"
| "root_of [r # others] = Inr r"
| "root_of (level # upper) = root_of upper"

definition MerkleTools_get_merkle_root :: "MerkleTree \<Rightarrow> error + string \<times> MerkleTree" where
  "MerkleTools_get_merkle_root t =
     (case ensure_built t of
        Inl e \<Rightarrow> Inl e
      | Inr t' \<Rightarrow> (case root_of (levels t') of Inl e \<Rightarrow> Inl e | Inr r \<Rightarrow> Inr (to_hex r, t')))"

subsection \<open>ProofGenerator\<close>

datatype side = Left | Right

text \<open>
  Modelled from the spec: \<open>proveInclusion\<close> of ProofGenerator, which is not among the
  sources. From level 0 and the position of the leaf, for each level but the root's: the
  sibling is at the position XOR 1, or is the duplicate of the node itself when the level
  is odd and the node is its last; the entry is the sibling's digest and the side it sits
  on; the position is halved for the next level.
\<close>

fun sibling_path :: "bytes list list \<Rightarrow> nat \<Rightarrow> (side \<times> bytes) list" where
  "sibling_path [] index = []"
| "sibling_path [root_level] index = []"
| "sibling_path (level # upper) index =
     (let sibling = index XOR 1;
          digest = (if sibling < length level then level ! sibling else level ! index);
          sd = (if sibling < index then Left else Right)
      in (sd, digest) # sibling_path upper (index div 2))"

definition prove_inclusion :: "bytes list list \<Rightarrow> int \<Rightarrow> error + (side \<times> bytes) list" where
  "prove_inclusion tree index =
     (case tree of
        [] \<Rightarrow> Inl EmptyTree
      | level0 # upper \<Rightarrow>
          if 0 \<le> index \<and> index < int (length level0)
          then Inr (sibling_path tree (nat index))
          else Inl IndexOutOfRange)"

text \<open>
  Modelled from the spec: the text of a side, which the spec gives as \<open>Left\<close> or \<open>Right\<close>
  and the base class, not among the sources, hands to \<open>mt.py\<close> as a dict key.
\<close>

fun side_name :: "side \<Rightarrow> string" where
  "side_name Left = ''left''"
| "side_name Right = ''right''"

text \<open>
  Modelled from the spec: \<open>get_proof_of_inclusion\<close> of the base class, which is not among
  the sources. The proof is the ordered list of entries, leaf to root, each a dict of one
  item from the side to the sibling's digest.
\<close>

definition MerkleTools_get_proof_of_inclusion ::
  "MerkleTree \<Rightarrow> int \<Rightarrow> error + (string \<times> string) list list \<times> MerkleTree" where
  "MerkleTools_get_proof_of_inclusion t index =
     (case ensure_built t of
        Inl e \<Rightarrow> Inl e
      | Inr t' \<Rightarrow>
          (case prove_inclusion (levels t') index of
             Inl e \<Rightarrow> Inl e
           | Inr path \<Rightarrow> Inr (map (\<lambda>(sd, digest). [(side_name sd, to_hex digest)]) path, t')))"

subsection \<open>ProofVerifier\<close>

text \<open>
  Modelled from the spec: \<open>verify\<close> of ProofVerifier, which is not among the sources.
  Starting from the target leaf, each entry in leaf to root order replaces the current
  value by the digest of current followed by sibling when the sibling is on the right, and
  of sibling followed by current otherwise; the result is compared with the claimed root.
\<close>

fun recompute_root :: "(bytes \<Rightarrow> bytes) \<Rightarrow> bytes \<Rightarrow> (side \<times> bytes) list \<Rightarrow> bytes" where
  "recompute_root h current [] = current"
| "recompute_root h current ((Right, sibling) # rest) =
     recompute_root h (h (current @ sibling)) rest"
| "recompute_root h current ((Left, sibling) # rest) =
     recompute_root h (h (sibling @ current)) rest"

text \<open>
  Modelled from the spec: reading back the text that the base class, not among the sources,
  hands out: two lowercase hexadecimal digits for each byte of a digest, and the word for a
  side. Text that is neither has no reading.
\<close>

definition hex_value :: "char \<Rightarrow> nat option" where
  "hex_value c =
     (let n = (of_char c :: nat)
      in if 48 \<le> n \<and> n \<le> 57 then Some (n - 48)
         else if 97 \<le> n \<and> n \<le> 102 then Some (n - 87)
         else None)"

fun from_hex :: "string \<Rightarrow> bytes option" where
  "from_hex [] = Some []"
| "from_hex [c] = None"
| "from_hex (c1 # c2 # cs) =
     (case (hex_value c1, hex_value c2, from_hex cs) of
        (Some hi, Some lo, Some bs) \<Rightarrow> Some (of_nat (16 * hi + lo) # bs)
      | _ \<Rightarrow> None)"

definition parse_side :: "string \<Rightarrow> side option" where
  "parse_side s = (if s = ''left'' then Some Left else if s = ''right'' then Some Right else None)"

text \<open>
  Modelled from the spec: the entries of a proof as the verifier of the base class reads
  them, which is not among the sources. An entry that is not one item from a side to the
  hexadecimal digits of a digest is malformed.
\<close>

fun parse_entries :: "(string \<times> string) list list \<Rightarrow> (side \<times> bytes) list option" where
  "parse_entries [] = Some []"
| "parse_entries ([(k, v)] # rest) =
     (case (parse_side k, from_hex v, parse_entries rest) of
        (Some sd, Some digest, Some path) \<Rightarrow> Some ((sd, digest) # path)
      | _ \<Rightarrow> None)"
| "parse_entries (entry # rest) = None"

text \<open>
  Modelled from the spec: \<open>verify_proof_of_inclusion\<close> of the base class, which is not
  among the sources. A malformed proof fails with \<open>MalformedProof\<close>; otherwise the result
  is whether the recomputed root equals the claimed root, byte for byte.
\<close>

definition MerkleTools_verify_proof_of_inclusion ::
  "MerkleTree \<Rightarrow> (string \<times> string) list list \<Rightarrow> string \<Rightarrow> string \<Rightarrow> error + bool" where
  "MerkleTools_verify_proof_of_inclusion t entries target_text root_text =
     (case (parse_entries entries, from_hex target_text, from_hex root_text) of
        (Some path, Some target_leaf, Some claimed_root) \<Rightarrow>
          Inr (recompute_root (hash_function t) target_leaf path = claimed_root)
      | _ \<Rightarrow> Inl MalformedProof)"

text \<open>
  Modelled from the spec: the class \<open>Proof\<close>, which is not among the sources. A proof
  holds the target leaf, the claimed root and the ordered entries; \<open>mt.py\<close> builds it
  from \<open>target_key_hash\<close>, \<open>root_hash\<close>, \<open>proof_hash\<close> and \<open>type\<close>, and reads it back as
  \<open>target\<close>, \<open>trie_root\<close> and \<open>proof\<close>.
\<close>

record Proof =
  target :: bytes
  trie_root :: bytes
  proof_hash :: "(bytes \<times> bytes) list list"
  proof_type :: string

datatype pyobj = ProofObj Proof | Other pyval

section \<open>The tree and proof methods of \<open>MerkleTree\<close>\<close>

definition make_tree :: "MerkleTree \<Rightarrow> error + MerkleTree" where
  "make_tree t = MerkleTools_make_tree t"

definition reset_tree :: "MerkleTree \<Rightarrow> MerkleTree" where
  "reset_tree t = MerkleTools_reset_tree t"

definition get_merkle_root :: "MerkleTree \<Rightarrow> error + string \<times> MerkleTree" where
  "get_merkle_root t =
     (if \<not> is_ready t then
        (case make_tree t of Inl e \<Rightarrow> Inl e | Inr t' \<Rightarrow> MerkleTools_get_merkle_root t')
      else MerkleTools_get_merkle_root t)"

text \<open>
  The leaf is read first, then the proof of the base class, whose dicts are flattened into
  dicts of one encoded item each, then the root, in the order of the keyword arguments.
\<close>

definition encode_items :: "(string \<times> string) list list \<Rightarrow> (bytes \<times> bytes) list list" where
  "encode_items prf = concat (map (map (\<lambda>(k, v). [(encode k, encode v)])) prf)"

definition get_proof_of_inclusion :: "MerkleTree \<Rightarrow> pyval \<Rightarrow> error + Proof \<times> MerkleTree" where
  "get_proof_of_inclusion t index =
     (if \<not> isinstance_int index then Inl TypeError
      else
        (case MerkleTools_get_leaf t (int_of index) of
           Inl e \<Rightarrow> Inl e
         | Inr key \<Rightarrow>
             (case MerkleTools_get_proof_of_inclusion t (int_of index) of
                Inl e \<Rightarrow> Inl e
              | Inr (prf, t1) \<Rightarrow>
                  (case get_merkle_root t1 of
                     Inl e \<Rightarrow> Inl e
                   | Inr (root, t2) \<Rightarrow>
                       Inr (\<lparr>target = encode key, trie_root = encode root,
                             proof_hash = encode_items prf, proof_type = ''MT POI''\<rparr>, t2)))))"

fun decode_items :: "(bytes \<times> bytes) list \<Rightarrow> error + (string \<times> string) list list" where
  "decode_items [] = Inr []"
| "decode_items ((k, v) # rest) =
     (case decode k of
        Inl e \<Rightarrow> Inl e
      | Inr k' \<Rightarrow>
          (case decode v of
             Inl e \<Rightarrow> Inl e
           | Inr v' \<Rightarrow>
               (case decode_items rest of
                  Inl e \<Rightarrow> Inl e
                | Inr items \<Rightarrow> Inr ([(k', v')] # items))))"

fun verify_proof_of_inclusion :: "MerkleTree \<Rightarrow> pyobj \<Rightarrow> error + bool" where
  "verify_proof_of_inclusion t (Other v) = Inl TypeError"
| "verify_proof_of_inclusion t (ProofObj prf) =
     (case decode_items (concat (proof_hash prf)) of
        Inl e \<Rightarrow> Inl e
      | Inr str_proof \<Rightarrow>
          (case decode (target prf) of
             Inl e \<Rightarrow> Inl e
           | Inr target_text \<Rightarrow>
               (case decode (trie_root prf) of
                  Inl e \<Rightarrow> Inl e
                | Inr root_text \<Rightarrow>
                    MerkleTools_verify_proof_of_inclusion t str_proof target_text root_text)))"

section \<open>Examples\<close>

text \<open>
  A stand-in for a hash function and a tree of three leaves that has not been built, used
  where a statement is to be shown at a concrete input.
\<close>

definition example_hash :: "bytes \<Rightarrow> bytes" where
  "example_hash data = of_nat (length data) # take 1 data"

definition example_tree :: MerkleTree where
  "example_tree = \<lparr>secure = False, hash_function = example_hash,
     leaves = [[1], [2], [3]], levels = [], is_ready = False\<rparr>"

text \<open>
  A dict of text: its keys are distinct, and its keys and values are all \<open>str\<close>.
\<close>

definition str_dict :: "(pyatom \<times> pyval) list \<Rightarrow> bool" where
  "str_dict d =
     (distinct (map fst d) \<and> list_all (\<lambda>(k, v). isinstance_str (Atom k) \<and> isinstance_str v) d)"

section \<open>Properties of the tree, the path and the text forms\<close>

lemma xor_one_even: "even (i::nat) \<Longrightarrow> i XOR Suc 0 = Suc i"
  using xor_one_eq [of i] by simp

lemma xor_one_odd: "odd (i::nat) \<Longrightarrow> i XOR Suc 0 = i - Suc 0"
  using xor_one_eq [of i] by simp

lemma next_level_nth:
  "i < length nodes \<Longrightarrow>
   next_level h nodes ! (i div 2) =
     (if even i then h (nodes ! i @ (if i + 1 < length nodes then nodes ! (i + 1) else nodes ! i))
      else h (nodes ! (i - 1) @ nodes ! i))"
proof (induction h nodes arbitrary: i rule: next_level.induct)
  case (1 h)
  then show ?case by simp
next
  case (2 h x)
  then show ?case by simp
next
  case (3 h x y rest)
  show ?case
  proof (cases "i < 2")
    case True
    then have "i = 0 \<or> i = 1" by auto
    then show ?thesis by auto
  next
    case False
    then obtain j where j: "i = j + 2" using nat_le_iff_add by (metis add.commute not_less)
    with 3 have "j < length rest" by simp
    from "3.IH" [OF this] show ?thesis using j by (simp add: nth_Cons')
  qed
qed

lemma build_not_Nil: "build h nodes \<noteq> []"
  by (subst build.simps) simp

lemma build_Cons: "\<exists>rest. build h nodes = nodes # rest"
  by (subst build.simps) simp

lemma sibling_path_step:
  "upper \<noteq> [] \<Longrightarrow> sibling_path (level # upper) index =
     (if index XOR 1 < index then Left else Right,
      if index XOR 1 < length level then level ! (index XOR 1) else level ! index)
     # sibling_path upper (index div 2)"
  by (cases upper) (simp_all add: Let_def)

lemma root_of_step: "upper \<noteq> [] \<Longrightarrow> root_of (level # upper) = root_of upper"
  by (cases upper; cases level) simp_all

lemma recompute_step:
  assumes "i < length nodes"
  shows "recompute_root h (nodes ! i)
           ((if i XOR 1 < i then Left else Right,
             if i XOR 1 < length nodes then nodes ! (i XOR 1) else nodes ! i) # path)
         = recompute_root h (next_level h nodes ! (i div 2)) path"
proof (cases "even i")
  case True
  then show ?thesis using assms by (simp add: xor_one_even next_level_nth)
next
  case False
  then have "0 < i" by (cases i) auto
  then show ?thesis using False assms by (auto simp: xor_one_odd next_level_nth)
qed

lemma recompute_build:
  "i < length nodes \<Longrightarrow>
   root_of (build h nodes) = Inr (recompute_root h (nodes ! i) (sibling_path (build h nodes) i))"
proof (induction h nodes arbitrary: i rule: build.induct)
  case (1 h nodes)
  show ?case
  proof (cases "length nodes \<le> 1")
    case True
    with 1(2) obtain x where "nodes = [x]" "i = 0"
      by (cases nodes) auto
    then show ?thesis by (simp add: build.simps)
  next
    case False
    have b: "build h nodes = nodes # build h (next_level h nodes)"
      using False by (subst build.simps) simp
    have "i div 2 < length (next_level h nodes)"
      using 1(2) by (simp add: length_next_level) 
    from 1(1) [OF False this]
    have ih: "root_of (build h (next_level h nodes)) =
        Inr (recompute_root h (next_level h nodes ! (i div 2))
               (sibling_path (build h (next_level h nodes)) (i div 2)))" .
    have "recompute_root h (nodes ! i) (sibling_path (build h nodes) i) =
        recompute_root h (next_level h nodes ! (i div 2))
          (sibling_path (build h (next_level h nodes)) (i div 2))"
      unfolding b sibling_path_step [OF build_not_Nil] by (rule recompute_step [OF 1(2)])
    moreover have "root_of (build h nodes) = root_of (build h (next_level h nodes))"
      unfolding b by (rule root_of_step [OF build_not_Nil])
    ultimately show ?thesis using ih by simp
  qed
qed


lemma hex_value_hex_digit_all: "\<forall>n\<in>{0..<16}. hex_value (hex_digit n) = Some n"
  by code_simp

lemma hex_value_hex_digit: "n < 16 \<Longrightarrow> hex_value (hex_digit n) = Some n"
  using hex_value_hex_digit_all by simp

lemma byte_of_nibbles: "(of_nat (16 * (unat b div 16) + unat b mod 16) :: byte) = b"
  by simp

lemma from_hex_to_hex: "from_hex (to_hex bs) = Some bs"
proof (induction bs)
  case Nil
  then show ?case by (simp add: to_hex_def)
next
  case (Cons b bs)
  have "unat b div 16 < 16" using unsigned_less [of b, where ?'a = nat] by simp
  then show ?case using Cons byte_of_nibbles [of b]
    by (simp add: to_hex_def hex_byte_def hex_value_hex_digit del: of_nat_add of_nat_mult)
qed

lemma decode_encode_char:
  "decode (encode_char c @ bs) = (case decode bs of Inl e \<Rightarrow> Inl e | Inr s \<Rightarrow> Inr (c # s))"
proof (cases "(of_char c :: nat) < 128")
  case True
  then have "(of_nat (of_char c) :: byte) < 0x80"
    by (simp add: word_less_nat_alt unat_of_nat)
  moreover have "char_of (unat (of_nat (of_char c :: nat) :: byte)) = c"
    using True by (simp add: unat_of_nat)
  ultimately show ?thesis using True
    by (simp add: encode_char_def split: sum.split)
next
  case False
  define n where "n = (of_char c :: nat)"
  have n: "128 \<le> n" "n < 256" using False by (simp_all add: n_def)
  then have d: "n div 64 = 2 \<or> n div 64 = 3" by auto
  define b1 where "b1 = (of_nat (192 + n div 64) :: byte)"
  define b2 where "b2 = (of_nat (128 + n mod 64) :: byte)"
  have u1: "unat b1 = 192 + n div 64" using d by (auto simp: b1_def unat_of_nat)
  have u2: "unat b2 = 128 + n mod 64"
    by (simp add: b2_def unat_of_nat del: of_nat_add)
  have "b1 = 0xC2 \<or> b1 = 0xC3" using d by (auto simp: b1_def)
  moreover have "\<not> b1 < 0x80" using u1 by (simp add: word_less_nat_alt)
  moreover have "0x80 \<le> b2" "b2 \<le> 0xBF" using u2 by (simp_all add: word_le_nat_alt)
  moreover have "char_of ((unat b1 - 192) * 64 + (unat b2 - 128)) = c"
    using u1 u2 by (simp add: n_def)
  moreover have "encode_char c = [b1, b2]"
    using False by (simp add: encode_char_def n_def b1_def b2_def Let_def)
  ultimately show ?thesis
    by (auto split: sum.split)
qed

lemma decode_encode: "decode (encode s) = Inr s"
proof (induction s)
  case Nil
  then show ?case by (simp add: encode_def)
next
  case (Cons c s)
  have "encode (c # s) = encode_char c @ encode s" by (simp add: encode_def)
  then show ?case using Cons by (simp add: decode_encode_char)
qed

lemma parse_side_name: "parse_side (side_name sd) = Some sd"
  by (cases sd) (simp_all add: parse_side_def)

lemma parse_entries_render:
  "parse_entries (map (\<lambda>(sd, digest). [(side_name sd, to_hex digest)]) path) = Some path"
  by (induction path) (auto simp: parse_side_name from_hex_to_hex)

lemma decode_items_encode_items:
  "decode_items (concat (encode_items (map (\<lambda>(sd, digest). [(side_name sd, to_hex digest)]) path)))
     = Inr (map (\<lambda>(sd, digest). [(side_name sd, to_hex digest)]) path)"
  by (induction path) (auto simp: encode_items_def decode_encode)


lemma prove_inclusion_build:
  "i < length nodes \<Longrightarrow>
   prove_inclusion (build h nodes) (int i) = Inr (sibling_path (build h nodes) i)"
proof -
  assume i: "i < length nodes"
  obtain rest where "build h nodes = nodes # rest" using build_Cons by blast
  then show ?thesis using i by (simp add: prove_inclusion_def)
qed

lemma next_level_last:
  "odd (length nodes) \<Longrightarrow> last (next_level h nodes) = h (last nodes @ last nodes)"
proof (induction h nodes rule: next_level.induct)
  case (3 h x y rest)
  then have "rest \<noteq> []" by auto
  moreover from this have "length (next_level h rest) \<noteq> 0"
    unfolding length_next_level by (cases rest) simp_all
  ultimately show ?case using 3 by simp
qed simp_all

lemma build_three:
  "build h [A, B, C] = [[A, B, C], [h (A @ B), h (C @ C)], [h (h (A @ B) @ h (C @ C))]]"
  by (simp add: build.simps)

section \<open>The claims\<close>

text \<open>
  C1. For every non-empty sequence of leaves and every valid leaf index \<open>i\<close>, building the
  tree, generating the inclusion proof for \<open>i\<close> with \<open>get_proof_of_inclusion\<close> and passing
  it to \<open>verify_proof_of_inclusion\<close> returns true. The base class is the one modelled from
  the spec.
\<close>

theorem inclusion_proof_verifies:
  assumes "leaves t \<noteq> []" and "i < length (leaves t)"
  shows "\<exists>t1 prf t2.
           make_tree t = Inr t1
           \<and> get_proof_of_inclusion t1 (Atom (AInt (int i))) = Inr (prf, t2)
           \<and> verify_proof_of_inclusion t2 (ProofObj prf) = Inr True"
proof -
  define h where "h = hash_function t"
  define tree where "tree = build h (leaves t)"
  define t1 where "t1 = t\<lparr>levels := tree, is_ready := True\<rparr>"
  define path where "path = sibling_path tree i"
  define entries where "entries = map (\<lambda>(sd, digest). [(side_name sd, to_hex digest)]) path"
  define r where "r = recompute_root h (leaves t ! i) path"
  define pf where "pf = \<lparr>target = encode (to_hex (leaves t ! i)), trie_root = encode (to_hex r),
    proof_hash = encode_items entries, proof_type = ''MT POI''\<rparr>"
  have built: "make_tree t = Inr t1"
    using assms(1) by (simp add: make_tree_def MerkleTools_make_tree_def t1_def tree_def h_def)
  have t1: "leaves t1 = leaves t" "levels t1 = tree" "is_ready t1" "hash_function t1 = h"
    by (simp_all add: t1_def h_def)
  have ready: "ensure_built t1 = Inr t1"
    using assms(1) t1 by (simp add: ensure_built_def)
  have leaf: "MerkleTools_get_leaf t1 (int i) = Inr (to_hex (leaves t ! i))"
    using assms(2) t1 by (simp add: MerkleTools_get_leaf_def)
  have "prove_inclusion tree (int i) = Inr path"
    unfolding tree_def path_def by (rule prove_inclusion_build [OF assms(2)])
  then have base_proof: "MerkleTools_get_proof_of_inclusion t1 (int i) = Inr (entries, t1)"
    using ready t1 by (simp add: MerkleTools_get_proof_of_inclusion_def entries_def)
  have root: "root_of tree = Inr r"
    unfolding tree_def r_def path_def by (rule recompute_build [OF assms(2)])
  then have "MerkleTools_get_merkle_root t1 = Inr (to_hex r, t1)"
    using ready t1 by (simp add: MerkleTools_get_merkle_root_def)
  then have root_text: "get_merkle_root t1 = Inr (to_hex r, t1)"
    using t1 by (simp add: get_merkle_root_def)
  have generated: "get_proof_of_inclusion t1 (Atom (AInt (int i))) = Inr (pf, t1)"
    using leaf base_proof root_text by (simp add: get_proof_of_inclusion_def pf_def)
  have "decode_items (concat (proof_hash pf)) = Inr entries"
    by (simp add: pf_def entries_def decode_items_encode_items)
  moreover have "MerkleTools_verify_proof_of_inclusion t1 entries (to_hex (leaves t ! i)) (to_hex r)
      = Inr True"
    using t1 by (simp add: MerkleTools_verify_proof_of_inclusion_def entries_def
        parse_entries_render from_hex_to_hex r_def)
  ultimately have "verify_proof_of_inclusion t1 (ProofObj pf) = Inr True"
    by (simp add: pf_def decode_encode)
  with built generated show ?thesis by blast
qed

theorem inclusion_proof_verifies_witness:
  "leaves example_tree \<noteq> [] \<and> 2 < length (leaves example_tree)
   \<and> (\<exists>t1 prf t2.
           make_tree example_tree = Inr t1
           \<and> get_proof_of_inclusion t1 (Atom (AInt (int 2))) = Inr (prf, t2)
           \<and> verify_proof_of_inclusion t2 (ProofObj prf) = Inr True)"
proof -
  have a: "leaves example_tree \<noteq> []" and b: "2 < length (leaves example_tree)"
    by (simp_all add: example_tree_def)
  from inclusion_proof_verifies [OF a b] a b show ?thesis by simp
qed

text \<open>
  C2. The claim is that \<open>put\<close> of a value that is not bytes, \<open>str\<close> or dict fails with a
  type error at the boundary. The check of \<open>put\<close> negates a tuple, which is never empty,
  so it rejects nothing: an int and \<open>None\<close> are handed to \<open>add_leaf\<close> of the base class
  unchecked, and what happens to them is whatever \<open>add_leaf\<close> does.
\<close>

theorem put_check_never_rejects:
  "put add_leaf t (Atom (AInt 5)) = add_leaf (Atom (AInt 5)) (secure t) t
   \<and> put add_leaf t (Atom ANone) = add_leaf (Atom ANone) (secure t) t"
  by (simp add: put_def tuple_truth_def)

text \<open>
  C3. The claim is that both exclusion methods fail with \<open>NotImplementedError\<close> on every
  call. \<open>get_proof_of_exclusion\<close> called on a tree does. \<open>verify_proof_of_exclusion\<close> is
  declared without \<open>self\<close>, so a call on a tree, which passes the tree, fails with
  \<open>TypeError\<close> whatever the arguments; only the bare function called with no argument
  reaches its body.
\<close>

theorem exclusion_proof_calls:
  "method_call get_proof_of_exclusion t [] = Inl NotImplementedError
   \<and> method_call verify_proof_of_exclusion t args = Inl TypeError
   \<and> verify_proof_of_exclusion [] = Inl NotImplementedError"
  by (simp add: method_call_def get_proof_of_exclusion_def verify_proof_of_exclusion_def)

text \<open>
  C4. When a level has an odd number of nodes, its last node is paired with a duplicate of
  itself: the last node of the next level is the digest of the last node followed by
  itself. For the leaves \<open>[A, B, C]\<close> the built levels are the leaves,
  \<open>[H(A||B), H(C||C)]\<close> and the root \<open>H(H(A||B) || H(C||C))\<close>, which \<open>get_merkle_root\<close>
  returns in hexadecimal. The base class is the one modelled from the spec.
\<close>

theorem odd_level_duplicates_last:
  "(odd (length nodes) \<longrightarrow> last (next_level h nodes) = h (last nodes @ last nodes))
   \<and> (leaves t = [A, B, C] \<longrightarrow>
        (\<exists>t'. make_tree t = Inr t'
           \<and> levels t' =
               [[A, B, C],
                [hash_function t (A @ B), hash_function t (C @ C)],
                [hash_function t (hash_function t (A @ B) @ hash_function t (C @ C))]]
           \<and> get_merkle_root t' =
               Inr (to_hex (hash_function t (hash_function t (A @ B) @ hash_function t (C @ C))),
                    t')))"
proof (intro conjI impI)
  assume "odd (length nodes)"
  then show "last (next_level h nodes) = h (last nodes @ last nodes)"
    by (rule next_level_last)
next
  assume l: "leaves t = [A, B, C]"
  define t' where "t' = t\<lparr>levels := build (hash_function t) [A, B, C], is_ready := True\<rparr>"
  have "make_tree t = Inr t'"
    using l by (simp add: make_tree_def MerkleTools_make_tree_def t'_def)
  moreover have "levels t' =
      [[A, B, C],
       [hash_function t (A @ B), hash_function t (C @ C)],
       [hash_function t (hash_function t (A @ B) @ hash_function t (C @ C))]]"
    by (simp add: t'_def build_three)
  moreover from this have "get_merkle_root t' =
      Inr (to_hex (hash_function t (hash_function t (A @ B) @ hash_function t (C @ C))), t')"
    using l by (simp add: get_merkle_root_def MerkleTools_get_merkle_root_def ensure_built_def
        t'_def)
  ultimately show "\<exists>t'. make_tree t = Inr t'
           \<and> levels t' =
               [[A, B, C],
                [hash_function t (A @ B), hash_function t (C @ C)],
                [hash_function t (hash_function t (A @ B) @ hash_function t (C @ C))]]
           \<and> get_merkle_root t' =
               Inr (to_hex (hash_function t (hash_function t (A @ B) @ hash_function t (C @ C))),
                    t')"
    by blast
qed

theorem odd_level_duplicates_last_witness:
  "odd (length [[1], [2], [3 :: byte]])
   \<and> last (next_level example_hash [[1], [2], [3]]) = example_hash ([3] @ [3])
   \<and> leaves example_tree = [[1], [2], [3]]
   \<and> (\<exists>t'. make_tree example_tree = Inr t'
         \<and> levels t' = [[[1], [2], [3]], [[2, 1], [2, 3]], [[4, 2]]]
         \<and> get_merkle_root t' = Inr (''0402'', t'))"
proof -
  have l: "leaves example_tree = [[1], [2], [3]]"
    and h: "hash_function example_tree = example_hash"
    by (simp_all add: example_tree_def)
  have o: "odd (length [[1], [2], [3 :: byte]])" by simp
  from odd_level_duplicates_last [of "[[1], [2], [3]]" example_hash example_tree "[1]" "[2]" "[3]"]
  show ?thesis using l o
    by (simp add: h example_hash_def to_hex_def hex_byte_def hex_digit_def)
qed

text \<open>
  C5. \<open>_convert_dict_to_string\<close> is not injective: two dicts of text that differ as
  dicts are flattened to the same string. The dicts are \<open>{"ab": "c"}\<close> and \<open>{"a": "bc"}\<close>.
\<close>

theorem convert_dict_to_string_not_injective:
  "\<exists>d1 d2 s. str_dict d1 \<and> str_dict d2 \<and> map_of d1 \<noteq> map_of d2
     \<and> convert_dict_to_string (Dict d1) = Inr s \<and> convert_dict_to_string (Dict d2) = Inr s"
proof -
  let ?d1 = "[(AStr ''ab'', Atom (AStr ''c''))]"
  let ?d2 = "[(AStr ''a'', Atom (AStr ''bc''))]"
  have "map_of ?d1 (AStr ''ab'') \<noteq> map_of ?d2 (AStr ''ab'')" by simp
  then have ne: "map_of ?d1 \<noteq> map_of ?d2" by metis
  have "str_dict ?d1" "str_dict ?d2" by (simp_all add: str_dict_def)
  moreover have "convert_dict_to_string (Dict ?d1) = Inr ''abc''"
    "convert_dict_to_string (Dict ?d2) = Inr ''abc''"
    by (simp_all add: tuple_truth_def)
  ultimately show ?thesis using ne by blast
qed

text \<open>
  C6. For a byte string, \<open>convert_value\<close> returns the value unchanged when the tree was
  constructed with \<open>secure=False\<close>, and the digest of the value under the tree's hash
  function when it was constructed with \<open>secure=True\<close>; the digest is returned the way
  the code takes it, \<open>hexdigest()\<close> encoded to bytes.
\<close>

theorem convert_value_bytes:
  "convert_value t (Atom (ABytes b)) =
     Inr (Atom (ABytes (if secure t then encode (to_hex (hash_function t b)) else b)))"
  by (simp add: convert_value_def)

text \<open>
  C7. On a tree that is not ready, \<open>get_merkle_root\<close> first builds with \<open>make_tree\<close> and
  then returns the root: its result is that of building and then reading the root, whether
  the root is read with the base class's method or with \<open>get_merkle_root\<close> itself, and an
  error of the build is the error of the call.
\<close>

theorem get_merkle_root_builds_first:
  assumes "\<not> is_ready t"
  shows "get_merkle_root t =
           (case make_tree t of Inl e \<Rightarrow> Inl e | Inr t' \<Rightarrow> MerkleTools_get_merkle_root t')
         \<and> get_merkle_root t =
           (case make_tree t of Inl e \<Rightarrow> Inl e | Inr t' \<Rightarrow> get_merkle_root t')"
proof -
  have first: "get_merkle_root t =
      (case make_tree t of Inl e \<Rightarrow> Inl e | Inr t' \<Rightarrow> MerkleTools_get_merkle_root t')"
    using assms by (simp add: get_merkle_root_def)
  have "make_tree t = Inr t' \<Longrightarrow> is_ready t'" for t'
    by (auto simp: make_tree_def MerkleTools_make_tree_def split: if_splits)
  then have "make_tree t = Inr t' \<Longrightarrow> get_merkle_root t' = MerkleTools_get_merkle_root t'" for t'
    by (simp add: get_merkle_root_def)
  then show ?thesis using first by (simp split: sum.split)
qed

theorem get_merkle_root_builds_first_witness:
  "\<not> is_ready example_tree
   \<and> get_merkle_root example_tree =
       (case make_tree example_tree of
          Inl e \<Rightarrow> Inl e
        | Inr t' \<Rightarrow> MerkleTools_get_merkle_root t')
   \<and> get_merkle_root example_tree =
       (case make_tree example_tree of Inl e \<Rightarrow> Inl e | Inr t' \<Rightarrow> get_merkle_root t')
   \<and> (\<exists>t'. make_tree example_tree = Inr t' \<and> get_merkle_root example_tree = Inr (''0402'', t'))"
proof -
  define built where "built =
    example_tree\<lparr>levels := [[[1], [2], [3]], [[2, 1], [2, 3]], [[4, 2]]], is_ready := True\<rparr>"
  have n: "\<not> is_ready example_tree" by (simp add: example_tree_def)
  have m: "make_tree example_tree = Inr built"
    by (simp add: make_tree_def MerkleTools_make_tree_def example_tree_def build_three
        example_hash_def built_def)
  have "MerkleTools_get_merkle_root built = Inr (''0402'', built)"
    by (simp add: MerkleTools_get_merkle_root_def ensure_built_def example_tree_def to_hex_def
        hex_byte_def hex_digit_def built_def)
  with m get_merkle_root_builds_first [OF n]
  have "get_merkle_root example_tree = Inr (''0402'', built)" by simp
  with m n get_merkle_root_builds_first [OF n] show ?thesis by blast
qed

text \<open>
  C8. \<open>get_merkle_root\<close> on a tree that holds zero leaves, such as a new tree or a tree
  after \<open>reset_tree\<close>, fails with \<open>EmptyTree\<close> and returns no root. The base class is the
  one modelled from the spec.
\<close>

theorem get_merkle_root_empty:
  "leaves t = [] \<Longrightarrow> get_merkle_root t = Inl EmptyTree"
  by (simp add: get_merkle_root_def make_tree_def MerkleTools_make_tree_def
      MerkleTools_get_merkle_root_def ensure_built_def)

theorem get_merkle_root_empty_witness:
  "leaves (reset_tree example_tree) = []
   \<and> get_merkle_root (reset_tree example_tree) = Inl EmptyTree
   \<and> (\<exists>t. MerkleTree_init (\<lambda>name. Some example_hash) (Atom (ABool True)) ''sha256'' = Inr t
         \<and> leaves t = [] \<and> get_merkle_root t = Inl EmptyTree)"
proof -
  define fresh where "fresh = \<lparr>secure = True, hash_function = example_hash, leaves = [],
    levels = [], is_ready = False\<rparr>"
  have a: "leaves (reset_tree example_tree) = []"
    by (simp add: reset_tree_def MerkleTools_reset_tree_def)
  have b: "leaves fresh = []" by (simp add: fresh_def)
  have "MerkleTree_init (\<lambda>name. Some example_hash) (Atom (ABool True)) ''sha256'' = Inr fresh"
    by (simp add: MerkleTools_init_def fresh_def)
  then show ?thesis
    using a b get_merkle_root_empty [OF a] get_merkle_root_empty [OF b] by blast
qed

text \<open>
  C9. The flattening of a dict whose value is itself a dict does not depend on the outer
  key: for every dict \<open>d\<close> and keys \<open>k1\<close>, \<open>k2\<close>, \<open>{k1: d}\<close> and \<open>{k2: d}\<close> are flattened
  alike, since the key of a nested dict is discarded. The two calls nest equally deep, so
  the interpreter's recursion limit, which is not modelled, treats them alike too.
\<close>

theorem nested_dict_key_discarded:
  "convert_dict_to_string (Dict [(k1, Dict d)]) = convert_dict_to_string (Dict [(k2, Dict d)])"
  by (simp add: tuple_truth_def)

text \<open>
  C10. Constructing a \<open>MerkleTree\<close> with a \<open>secure\<close> argument that is not a \<open>bool\<close> fails
  with \<open>TypeError\<close> before anything else is initialised: the result is the type error
  whatever the hash type is, supported or not.
\<close>

theorem init_rejects_non_bool:
  "\<not> isinstance_bool secure_arg \<Longrightarrow> MerkleTree_init algorithms secure_arg hash_type = Inl TypeError"
  by (cases "(algorithms, secure_arg, hash_type)" rule: MerkleTree_init.cases) simp_all

theorem init_rejects_non_bool_witness:
  "\<not> isinstance_bool (Atom (AInt 1))
   \<and> MerkleTree_init (\<lambda>name. Some example_hash) (Atom (AInt 1)) ''sha256'' = Inl TypeError
   \<and> MerkleTree_init (\<lambda>name. None) (Atom ANone) ''sha256'' = Inl TypeError"
  using init_rejects_non_bool [of "Atom (AInt 1)" "\<lambda>name. Some example_hash" "''sha256''"]
    init_rejects_non_bool [of "Atom ANone" "\<lambda>name. None" "''sha256''"]
  by simp

end
